theory Spec2Isabelle
  imports Complex_Main
begin

section \<open>The order engine of \<open>main.py\<close> (class \<open>BinanceTradingBot\<close>)\<close>

text \<open>
  The development embeds the order-placing methods of \<open>BinanceTradingBot\<close>:
  \<open>place_market_order\<close>, \<open>place_limit_order\<close>, \<open>place_stop_limit_order\<close>,
  \<open>place_oco_order\<close>, \<open>place_grid_order\<close> and \<open>place_twap_order\<close>.

  Conventions of the embedding.
  \<^item> A Python \<open>float\<close> is a rational number (\<open>rat\<close>): arithmetic is exact, the
    binary rounding of IEEE doubles, infinities and NaN are not modelled. The
    \<open>Decimal\<close> quantisation of the grid prices is exact decimal arithmetic in the
    source as well.
  \<^item> Strings are byte strings; \<open>str.upper\<close> is modelled on ASCII letters.
  \<^item> The exchange client (\<open>self.client\<close>, python-binance) and the wall clock are
    outside the repository. They are parameters of the model (record \<open>env\<close>); every
    call of \<open>futures_create_order\<close> and of \<open>time.sleep\<close> is written to an event
    trace kept in the state, so that "no call is made" and "the engine waits between
    two submissions" are statements about that trace.
  \<^item> Every method body is one \<open>try\<close> block whose handlers all return \<open>None\<close> or
    \<open>[]\<close>. A raised exception is the left summand of a sum type; the state reached
    when it was raised is kept, as Python keeps the mutations made before a raise.
  \<^item> Logging is not modelled.
\<close>

subsection \<open>Enumerations and exceptions\<close>

datatype OrderType = MARKET | LIMIT | STOP_LIMIT | OCO | GRID | TWAP

datatype OrderSide = BUY | SELL

text \<open>
  The exceptions the modelled code can raise. The first three come out of the client
  (\<open>Exception\<close> stands for any other exception it raises); \<open>ZeroDivisionError\<close> is the
  float division by \<open>grid_levels = 0\<close> or \<open>num_slices = 0\<close>; \<open>InvalidOperation\<close> is
  raised by \<open>Decimal.quantize\<close>; \<open>ValueError\<close> by \<open>time.sleep\<close> of a negative length.
\<close>

datatype exn =
    BinanceAPIException
  | BinanceOrderException
  | Exception
  | ZeroDivisionError
  | InvalidOperation
  | ValueError

subsection \<open>Symbol normalisation: \<open>symbol.replace("USDT", "").upper() + "USDT"\<close>\<close>

text \<open>
  Python's \<open>s.replace(old, new)\<close>: scanning from the left, every non-overlapping
  occurrence of \<open>old\<close> is replaced by \<open>new\<close>. With an empty \<open>old\<close>, \<open>new\<close> is put
  before every character and at the end. The comparison is case-sensitive.
\<close>

function str_replace :: "string \<Rightarrow> string \<Rightarrow> string \<Rightarrow> string" where
  "str_replace old new s =
     (if old = [] then new @ concat (map (\<lambda>c. c # new) s)
      else if s = [] then []
      else if take (length old) s = old
        then new @ str_replace old new (drop (length old) s)
      else hd s # str_replace old new (tl s))"
  by pat_completeness auto
termination
  by (relation "measure (\<lambda>(old, new, s). length s)") auto

definition upper_char :: "char \<Rightarrow> char" where
  "upper_char c =
     (let n = (of_char c :: nat)
      in if 97 \<le> n \<and> n \<le> 122 then char_of (n - 32) else c)"

definition upper :: "string \<Rightarrow> string" where
  "upper s = map upper_char s"

definition clean_symbol :: "string \<Rightarrow> string" where
  "clean_symbol raw = upper (str_replace ''USDT'' '''' raw) @ ''USDT''"

subsection \<open>Price quantisation\<close>

text \<open>
  \<open>float(Decimal(str(price)).quantize(Decimal('0.01'), rounding=ROUND_DOWN))\<close>.
  \<open>ROUND_DOWN\<close> rounds towards zero. The tick \<open>0.01\<close> is a literal of the source:
  there is no tick-size parameter. Under the default context of \<open>decimal\<close>
  (precision 28) \<open>quantize\<close> raises \<open>InvalidOperation\<close> when the result would have
  more than 28 digits, which for two decimal places is \<open>|price| \<ge> 10^26\<close>.
\<close>

definition round_down :: "rat \<Rightarrow> int" where
  "round_down x = (if 0 \<le> x then \<lfloor>x\<rfloor> else \<lceil>x\<rceil>)"

definition quantize_down :: "rat \<Rightarrow> rat" where
  "quantize_down p = of_int (round_down (p * 100)) / 100"

definition quantize_price :: "rat \<Rightarrow> exn + rat" where
  "quantize_price p =
     (if 10 ^ 26 \<le> \<bar>p\<bar> then Inl InvalidOperation
      else Inr (quantize_down p))"

subsection \<open>Requests, responses, the ledger\<close>

text \<open>
  The keyword arguments of \<open>client.futures_create_order\<close>; an argument a method does
  not pass is \<open>None\<close>.
\<close>

record order_request =
  symbol :: string
  side :: OrderSide
  otype :: OrderType
  quantity :: rat
  timeInForce :: "string option"
  price :: "rat option"
  stopPrice :: "rat option"
  stopLimitPrice :: "rat option"
  stopLimitTimeInForce :: "string option"

text \<open>
  The dictionary the exchange answers with: its \<open>orderId\<close> and the other keys
  (\<open>status\<close>, \<open>origQty\<close>, ...), which the bot stores and never reads.
\<close>

record order =
  orderId :: int
  payload :: "(string \<times> string) list"

text \<open>
  An element of \<open>order_history\<close>: the response with the keys the bot adds
  (\<open>timestamp\<close>, \<open>order_type\<close> and, by strategy, \<open>stop_price\<close>, \<open>grid_level\<close>,
  \<open>slice_number\<close>).
\<close>

record history_entry =
  response :: order
  timestamp :: string
  order_type :: OrderType
  stop_price :: "rat option"
  grid_level :: "nat option"
  slice_number :: "nat option"

datatype event = CreateOrder order_request | Sleep rat

text \<open>
  The collaborators outside the repository. \<open>create_order n req\<close> is what the
  exchange client does with the request \<open>req\<close> when \<open>n\<close> requests were submitted
  before it: it returns the order or raises. \<open>now n\<close> is the reading of
  \<open>datetime.now().isoformat()\<close> when the history holds \<open>n\<close> entries.
\<close>

record env =
  create_order :: "nat \<Rightarrow> order_request \<Rightarrow> exn + order"
  now :: "nat \<Rightarrow> string"

text \<open>
  The state: the two fields of the bot that the methods write (\<open>self.orders\<close>,
  \<open>self.order_history\<close>), and the trace of calls made to the client and to
  \<open>time.sleep\<close>, oldest first.
\<close>

record bot =
  orders :: "int \<rightharpoonup> order"
  order_history :: "history_entry list"
  events :: "event list"

definition calls :: "event list \<Rightarrow> nat" where
  "calls evs = length (filter (\<lambda>e. case e of CreateOrder r \<Rightarrow> True | Sleep t \<Rightarrow> False) evs)"

text \<open>\<open>self.client.futures_create_order(**req)\<close>: the call is traced, then answered.\<close>

definition futures_create_order :: "env \<Rightarrow> order_request \<Rightarrow> bot \<Rightarrow> (exn + order) \<times> bot" where
  "futures_create_order E req s =
     (create_order E (calls (events s)) req, s\<lparr>events := events s @ [CreateOrder req]\<rparr>)"

text \<open>\<open>time.sleep(t)\<close>: raises \<open>ValueError\<close> for a negative length, else suspends.\<close>

definition sleep :: "rat \<Rightarrow> bot \<Rightarrow> exn option \<times> bot" where
  "sleep t s =
     (if t < 0 then (Some ValueError, s)
      else (None, s\<lparr>events := events s @ [Sleep t]\<rparr>))"

text \<open>
  The two statements every method runs after a successful submission:
  \<open>self.orders[order["orderId"]] = order\<close> and \<open>self.order_history.append({**order,
  "timestamp": ..., "order_type": ..., ...})\<close>.
\<close>

definition record_order ::
  "env \<Rightarrow> order \<Rightarrow> OrderType \<Rightarrow> rat option \<Rightarrow> nat option \<Rightarrow> nat option \<Rightarrow> bot \<Rightarrow> bot" where
  "record_order E ord ty sp gl sn s =
     s\<lparr>orders := (orders s)(orderId ord \<mapsto> ord),
       order_history := order_history s @
         [\<lparr>response = ord, timestamp = now E (length (order_history s)),
           order_type = ty, stop_price = sp, grid_level = gl, slice_number = sn\<rparr>]\<rparr>"

subsection \<open>Single orders\<close>

text \<open>
  Each method builds one request from its arguments, submits it and, when the client
  returns, records the order and returns it; when the client raises, every handler
  returns \<open>None\<close>. Nothing is checked before the submission.
\<close>

definition place_market_order ::
  "env \<Rightarrow> string \<Rightarrow> OrderSide \<Rightarrow> rat \<Rightarrow> bot \<Rightarrow> order option \<times> bot" where
  "place_market_order E raw sd qty s =
     (case futures_create_order E
        \<lparr>symbol = clean_symbol raw, side = sd, otype = MARKET, quantity = qty,
         timeInForce = None, price = None, stopPrice = None, stopLimitPrice = None,
         stopLimitTimeInForce = None\<rparr> s of
        (Inl e, s1) \<Rightarrow> (None, s1)
      | (Inr ord, s1) \<Rightarrow> (Some ord, record_order E ord MARKET None None None s1))"

definition place_limit_order ::
  "env \<Rightarrow> string \<Rightarrow> OrderSide \<Rightarrow> rat \<Rightarrow> rat \<Rightarrow> string \<Rightarrow> bot \<Rightarrow> order option \<times> bot" where
  "place_limit_order E raw sd qty p time_in_force s =
     (case futures_create_order E
        \<lparr>symbol = clean_symbol raw, side = sd, otype = LIMIT, quantity = qty,
         timeInForce = Some time_in_force, price = Some p, stopPrice = None,
         stopLimitPrice = None, stopLimitTimeInForce = None\<rparr> s of
        (Inl e, s1) \<Rightarrow> (None, s1)
      | (Inr ord, s1) \<Rightarrow> (Some ord, record_order E ord LIMIT None None None s1))"

definition place_stop_limit_order ::
  "env \<Rightarrow> string \<Rightarrow> OrderSide \<Rightarrow> rat \<Rightarrow> rat \<Rightarrow> rat \<Rightarrow> string \<Rightarrow> bot \<Rightarrow> order option \<times> bot" where
  "place_stop_limit_order E raw sd qty p stop time_in_force s =
     (case futures_create_order E
        \<lparr>symbol = clean_symbol raw, side = sd, otype = STOP_LIMIT, quantity = qty,
         timeInForce = Some time_in_force, price = Some p, stopPrice = Some stop,
         stopLimitPrice = None, stopLimitTimeInForce = None\<rparr> s of
        (Inl e, s1) \<Rightarrow> (None, s1)
      | (Inr ord, s1) \<Rightarrow>
          (Some ord, record_order E ord STOP_LIMIT (Some stop) None None s1))"

text \<open>
  \<open>place_oco_order\<close>: \<open>if stop_limit_price is None: stop_limit_price = stop_price\<close>,
  then one request of type \<open>LIMIT\<close> that carries the stop leg; the history entry is
  tagged \<open>"OCO"\<close>.
\<close>

definition place_oco_order ::
  "env \<Rightarrow> string \<Rightarrow> OrderSide \<Rightarrow> rat \<Rightarrow> rat \<Rightarrow> rat \<Rightarrow> rat option \<Rightarrow> bot \<Rightarrow> order option \<times> bot" where
  "place_oco_order E raw sd qty p stop stop_limit_price s =
     (let stop_limit = (case stop_limit_price of None \<Rightarrow> stop | Some v \<Rightarrow> v)
      in case futures_create_order E
        \<lparr>symbol = clean_symbol raw, side = sd, otype = LIMIT, quantity = qty,
         timeInForce = Some ''GTC'', price = Some p, stopPrice = Some stop,
         stopLimitPrice = Some stop_limit, stopLimitTimeInForce = Some ''GTC''\<rparr> s of
        (Inl e, s1) \<Rightarrow> (None, s1)
      | (Inr ord, s1) \<Rightarrow> (Some ord, record_order E ord OCO (Some stop) None None s1))"

subsection \<open>Loops that an exception leaves\<close>

text \<open>
  A Python \<open>for\<close> loop inside a \<open>try\<close>: the body runs on each index in turn; the
  first exception ends the loop and keeps the state the body had reached.
\<close>

fun for_each :: "('i \<Rightarrow> 'a \<Rightarrow> exn option \<times> 'a) \<Rightarrow> 'i list \<Rightarrow> 'a \<Rightarrow> exn option \<times> 'a" where
  "for_each body [] a = (None, a)"
| "for_each body (i # rest) a =
     (case body i a of
        (Some e, a1) \<Rightarrow> (Some e, a1)
      | (None, a1) \<Rightarrow> for_each body rest a1)"

subsection \<open>Grid orders\<close>

text \<open>The price of a level before quantisation (lines 456 to 461).\<close>

definition grid_level_price :: "OrderSide \<Rightarrow> rat \<Rightarrow> rat \<Rightarrow> nat \<Rightarrow> rat" where
  "grid_level_price sd base_price grid_percentage level =
     (if sd = BUY then base_price * (1 - (of_nat level * grid_percentage / 100))
      else base_price * (1 + (of_nat level * grid_percentage / 100)))"

definition grid_request :: "string \<Rightarrow> OrderSide \<Rightarrow> rat \<Rightarrow> rat \<Rightarrow> order_request" where
  "grid_request clean sd qty_per_level p =
     \<lparr>symbol = clean, side = sd, otype = LIMIT, quantity = qty_per_level,
      timeInForce = Some ''GTC'', price = Some p, stopPrice = None,
      stopLimitPrice = None, stopLimitTimeInForce = None\<rparr>"

text \<open>
  The body of the loop over \<open>range(grid_levels)\<close>; the loop variables are the list
  \<open>orders\<close> built so far and the bot.
\<close>

definition grid_body ::
  "env \<Rightarrow> string \<Rightarrow> OrderSide \<Rightarrow> rat \<Rightarrow> rat \<Rightarrow> rat \<Rightarrow> nat \<Rightarrow> order list \<times> bot
     \<Rightarrow> exn option \<times> (order list \<times> bot)" where
  "grid_body E clean sd qty_per_level base_price grid_percentage level = (\<lambda>(placed, s).
     case quantize_price (grid_level_price sd base_price grid_percentage level) of
       Inl e \<Rightarrow> (Some e, (placed, s))
     | Inr p \<Rightarrow>
         (case futures_create_order E (grid_request clean sd qty_per_level p) s of
            (Inl e, s1) \<Rightarrow> (Some e, (placed, s1))
          | (Inr ord, s1) \<Rightarrow>
              (None, (placed @ [ord],
                      record_order E ord GRID None (Some (level + 1)) None s1))))"

text \<open>
  The \<open>try\<close> block of \<open>place_grid_order\<close>. \<open>quantity / grid_levels\<close> raises
  \<open>ZeroDivisionError\<close> when \<open>grid_levels\<close> is \<open>0\<close>; \<open>range\<close> of a negative number is
  empty.
\<close>

definition place_grid_order_try ::
  "env \<Rightarrow> string \<Rightarrow> OrderSide \<Rightarrow> rat \<Rightarrow> rat \<Rightarrow> int \<Rightarrow> rat \<Rightarrow> bot \<Rightarrow> exn option \<times> (order list \<times> bot)" where
  "place_grid_order_try E raw sd qty base_price grid_levels grid_percentage s =
     (if grid_levels = 0 then (Some ZeroDivisionError, ([], s))
      else for_each
             (grid_body E (clean_symbol raw) sd (qty / of_int grid_levels)
                base_price grid_percentage)
             [0 ..< nat grid_levels] ([], s))"

text \<open>With the handler: \<open>except Exception: return []\<close>.\<close>

definition place_grid_order ::
  "env \<Rightarrow> string \<Rightarrow> OrderSide \<Rightarrow> rat \<Rightarrow> rat \<Rightarrow> int \<Rightarrow> rat \<Rightarrow> bot \<Rightarrow> order list \<times> bot" where
  "place_grid_order E raw sd qty base_price grid_levels grid_percentage s =
     (case place_grid_order_try E raw sd qty base_price grid_levels grid_percentage s of
        (Some e, (placed, s1)) \<Rightarrow> ([], s1)
      | (None, (placed, s1)) \<Rightarrow> (placed, s1))"

subsection \<open>TWAP orders\<close>

definition twap_request :: "string \<Rightarrow> OrderSide \<Rightarrow> rat \<Rightarrow> order_request" where
  "twap_request clean sd qty_per_slice =
     \<lparr>symbol = clean, side = sd, otype = MARKET, quantity = qty_per_slice,
      timeInForce = None, price = None, stopPrice = None, stopLimitPrice = None,
      stopLimitTimeInForce = None\<rparr>"

text \<open>
  The body of the loop over \<open>range(num_slices)\<close>: submit, record, and
  \<open>if slice_num < num_slices - 1: time.sleep(time_interval)\<close>.
\<close>

definition twap_body ::
  "env \<Rightarrow> string \<Rightarrow> OrderSide \<Rightarrow> rat \<Rightarrow> int \<Rightarrow> rat \<Rightarrow> nat \<Rightarrow> order list \<times> bot
     \<Rightarrow> exn option \<times> (order list \<times> bot)" where
  "twap_body E clean sd qty_per_slice num_slices time_interval slice_num = (\<lambda>(placed, s).
     case futures_create_order E (twap_request clean sd qty_per_slice) s of
       (Inl e, s1) \<Rightarrow> (Some e, (placed, s1))
     | (Inr ord, s1) \<Rightarrow>
         (let s2 = record_order E ord TWAP None None (Some (slice_num + 1)) s1
          in if int slice_num < num_slices - 1
             then (case sleep time_interval s2 of
                     (Some e, s3) \<Rightarrow> (Some e, (placed @ [ord], s3))
                   | (None, s3) \<Rightarrow> (None, (placed @ [ord], s3)))
             else (None, (placed @ [ord], s2))))"

definition place_twap_order_try ::
  "env \<Rightarrow> string \<Rightarrow> OrderSide \<Rightarrow> rat \<Rightarrow> int \<Rightarrow> rat \<Rightarrow> bot \<Rightarrow> exn option \<times> (order list \<times> bot)" where
  "place_twap_order_try E raw sd total_quantity num_slices time_interval s =
     (if num_slices = 0 then (Some ZeroDivisionError, ([], s))
      else for_each
             (twap_body E (clean_symbol raw) sd (total_quantity / of_int num_slices)
                num_slices time_interval)
             [0 ..< nat num_slices] ([], s))"

definition place_twap_order ::
  "env \<Rightarrow> string \<Rightarrow> OrderSide \<Rightarrow> rat \<Rightarrow> int \<Rightarrow> rat \<Rightarrow> bot \<Rightarrow> order list \<times> bot" where
  "place_twap_order E raw sd total_quantity num_slices time_interval s =
     (case place_twap_order_try E raw sd total_quantity num_slices time_interval s of
        (Some e, (placed, s1)) \<Rightarrow> ([], s1)
      | (None, (placed, s1)) \<Rightarrow> (placed, s1))"

subsection \<open>Vocabulary of the statements\<close>

text \<open>
  The bot as \<open>__init__\<close> leaves it, and two exchanges for concrete runs: one that
  accepts every request and numbers its orders from 1000, and one that does the same
  except that it raises \<open>BinanceAPIException\<close> on the request with call number \<open>k\<close>
  (counted from 0).
\<close>

definition new_bot :: bot where
  "new_bot = \<lparr>orders = Map.empty, order_history = [], events = []\<rparr>"

definition accepted :: "nat \<Rightarrow> order" where
  "accepted n = \<lparr>orderId = 1000 + int n, payload = [(''status'', ''NEW'')]\<rparr>"

definition accepting :: env where
  "accepting = \<lparr>create_order = (\<lambda>n req. Inr (accepted n)), now = (\<lambda>n. ''t'')\<rparr>"

definition failing_at :: "nat \<Rightarrow> env" where
  "failing_at k =
     \<lparr>create_order = (\<lambda>n req. if n = k then Inl BinanceAPIException else Inr (accepted n)),
      now = (\<lambda>n. ''t'')\<rparr>"

text \<open>
  The ledger after the orders \<open>ord 0, ..., ord (k - 1)\<close> were recorded in this order:
  the map, and the history entries a grid run and a TWAP run append (\<open>h0\<close> is the
  length of the history before the run).
\<close>

definition recorded :: "(nat \<Rightarrow> order) \<Rightarrow> nat \<Rightarrow> (int \<rightharpoonup> order) \<Rightarrow> (int \<rightharpoonup> order)" where
  "recorded ord k m = fold (\<lambda>i m. m(orderId (ord i) \<mapsto> ord i)) [0 ..< k] m"

definition grid_entry :: "env \<Rightarrow> nat \<Rightarrow> (nat \<Rightarrow> order) \<Rightarrow> nat \<Rightarrow> history_entry" where
  "grid_entry E h0 ord i =
     \<lparr>response = ord i, timestamp = now E (h0 + i), order_type = GRID,
      stop_price = None, grid_level = Some (i + 1), slice_number = None\<rparr>"

definition twap_entry :: "env \<Rightarrow> nat \<Rightarrow> (nat \<Rightarrow> order) \<Rightarrow> nat \<Rightarrow> history_entry" where
  "twap_entry E h0 ord i =
     \<lparr>response = ord i, timestamp = now E (h0 + i), order_type = TWAP,
      stop_price = None, grid_level = None, slice_number = Some (i + 1)\<rparr>"

text \<open>The request of grid level \<open>i\<close> (counted from 0) of a run with \<open>n\<close> levels.\<close>

definition grid_level_request ::
  "string \<Rightarrow> OrderSide \<Rightarrow> rat \<Rightarrow> rat \<Rightarrow> nat \<Rightarrow> rat \<Rightarrow> nat \<Rightarrow> order_request" where
  "grid_level_request raw sd qty base_price n grid_percentage i =
     grid_request (clean_symbol raw) sd (qty / of_nat n)
       (quantize_down (grid_level_price sd base_price grid_percentage i))"

text \<open>
  The state after the first \<open>k\<close> levels of a grid run were submitted and accepted;
  \<open>req i\<close> is the request of level \<open>i\<close>.
\<close>

definition after_grid ::
  "env \<Rightarrow> (nat \<Rightarrow> order) \<Rightarrow> (nat \<Rightarrow> order_request) \<Rightarrow> nat \<Rightarrow> bot \<Rightarrow> bot" where
  "after_grid E ord req k s =
     s\<lparr>orders := recorded ord k (orders s),
       order_history := order_history s @
         map (grid_entry E (length (order_history s)) ord) [0 ..< k],
       events := events s @ map (\<lambda>i. CreateOrder (req i)) [0 ..< k]\<rparr>"

text \<open>
  The events of the first \<open>k\<close> accepted slices of a TWAP run with \<open>n\<close> slices: each
  slice is one submission, followed by a sleep unless it is the last of the \<open>n\<close>;
  and the state after these slices.
\<close>

definition twap_events :: "order_request \<Rightarrow> rat \<Rightarrow> nat \<Rightarrow> nat \<Rightarrow> event list" where
  "twap_events req t n k =
     concat (map (\<lambda>i. CreateOrder req # (if Suc i < n then [Sleep t] else [])) [0 ..< k])"

definition after_twap ::
  "env \<Rightarrow> (nat \<Rightarrow> order) \<Rightarrow> order_request \<Rightarrow> rat \<Rightarrow> nat \<Rightarrow> nat \<Rightarrow> bot \<Rightarrow> bot" where
  "after_twap E ord req t n k s =
     s\<lparr>orders := recorded ord k (orders s),
       order_history := order_history s @
         map (twap_entry E (length (order_history s)) ord) [0 ..< k],
       events := events s @ twap_events req t n k\<rparr>"

text \<open>
  What a run adds to the ledger is what it added to its list \<open>orders\<close>: the second
  pair of loop variables extends the first by the orders \<open>new\<close>, in the list, in the
  history and in the map.
\<close>

definition ledger_step :: "order list \<times> bot \<Rightarrow> order list \<times> bot \<Rightarrow> bool" where
  "ledger_step a b =
     (\<exists>new. fst b = fst a @ new \<and>
        map response (order_history (snd b)) = map response (order_history (snd a)) @ new \<and>
        orders (snd b) = fold (\<lambda>x m. m(orderId x \<mapsto> x)) new (orders (snd a)))"

section \<open>Properties\<close>

subsection \<open>Symbol normalisation\<close>

text \<open>
  C3. The normalisation is \<open>replace("USDT", "")\<close>, then \<open>upper()\<close>, then the suffix.
  The inputs \<open>btc\<close>, \<open>BTC\<close> and \<open>BTCUSDT\<close> give \<open>BTCUSDT\<close>. The input \<open>btcusdt\<close> gives
  \<open>BTCUSDTUSDT\<close>: the replacement is case-sensitive and runs before the upper-casing,
  so the lower-case suffix is not removed and a second suffix is appended. On a
  symbol that was upper-cased first (as the command-line handlers do before they
  call the bot) the result is \<open>BTCUSDT\<close>. An occurrence of \<open>USDT\<close> is removed
  wherever it stands, not only at the end.
\<close>

theorem clean_symbol_lower_case_suffix:
  "clean_symbol ''btcusdt'' = ''BTCUSDTUSDT'' \<and>
   clean_symbol ''btcusdt'' \<noteq> ''BTCUSDT'' \<and>
   clean_symbol ''btc'' = ''BTCUSDT'' \<and>
   clean_symbol ''BTC'' = ''BTCUSDT'' \<and>
   clean_symbol ''BTCUSDT'' = ''BTCUSDT'' \<and>
   clean_symbol (upper ''btcusdt'') = ''BTCUSDT'' \<and>
   clean_symbol ''USDTBTC'' = ''BTCUSDT''"
  by code_simp

subsection \<open>Facts about the trace and the quantiser\<close>

lemma calls_append [simp]: "calls (xs @ ys) = calls xs + calls ys"
  by (simp add: calls_def)

lemma calls_Nil [simp]: "calls [] = 0"
  by (simp add: calls_def)

lemma calls_CreateOrder [simp]: "calls (CreateOrder r # evs) = Suc (calls evs)"
  by (simp add: calls_def)

lemma calls_Sleep [simp]: "calls (Sleep t # evs) = calls evs"
  by (simp add: calls_def)

lemma calls_map_CreateOrder [simp]: "calls (map (\<lambda>i. CreateOrder (f i)) xs) = length xs"
  by (induction xs) simp_all

lemma round_down_of_int [simp]: "round_down (of_int k) = k"
  by (simp add: round_down_def)

lemma round_down_mono: "x \<le> y \<Longrightarrow> round_down x \<le> round_down y"
proof -
  assume xy: "x \<le> y"
  show ?thesis
  proof (cases "0 \<le> x")
    case True
    then show ?thesis using xy by (simp add: round_down_def floor_mono)
  next
    case False
    show ?thesis
    proof (cases "0 \<le> y")
      case True
      have "\<lceil>x\<rceil> \<le> 0" using False by simp
      moreover have "0 \<le> \<lfloor>y\<rfloor>" using True by simp
      ultimately have "\<lceil>x\<rceil> \<le> \<lfloor>y\<rfloor>" by linarith
      then show ?thesis using False True by (simp add: round_down_def)
    next
      case False
      then show ?thesis using xy \<open>\<not> 0 \<le> x\<close> by (simp add: round_down_def ceiling_mono)
    qed
  qed
qed

lemma round_down_nonneg: "0 \<le> x \<Longrightarrow> 0 \<le> round_down x \<and> of_int (round_down x) \<le> x"
  by (simp add: round_down_def)

lemma round_down_nonpos: "x \<le> 0 \<Longrightarrow> round_down x \<le> 0 \<and> x \<le> of_int (round_down x)"
  by (cases "x = 0") (simp_all add: round_down_def)

lemma round_down_close: "\<bar>x - of_int (round_down x)\<bar> < 1"
proof (cases "0 \<le> x")
  case True
  have "x - of_int \<lfloor>x\<rfloor> < 1" "0 \<le> x - of_int \<lfloor>x\<rfloor>" by linarith+
  then show ?thesis using True by (simp add: round_down_def)
next
  case False
  have "of_int \<lceil>x\<rceil> - x < 1" "0 \<le> of_int \<lceil>x\<rceil> - x" by linarith+
  then show ?thesis using False by (simp add: round_down_def)
qed

lemma quantize_down_mono: "x \<le> y \<Longrightarrow> quantize_down x \<le> quantize_down y"
proof -
  assume "x \<le> y"
  then have "round_down (x * 100) \<le> round_down (y * 100)"
    by (intro round_down_mono) simp
  then have "(of_int (round_down (x * 100)) :: rat) \<le> of_int (round_down (y * 100))"
    by simp
  then show ?thesis by (simp add: quantize_down_def divide_right_mono)
qed

lemma quantize_down_idem: "quantize_down (quantize_down p) = quantize_down p"
  by (simp add: quantize_down_def)

subsection \<open>The quantiser\<close>

text \<open>
  C5, as the claim states it, fails: the claim asks for a quantised price at or below
  the price for every price, and \<open>ROUND_DOWN\<close> rounds towards zero, so a negative
  price is moved up. The price \<open>-0.001\<close> (level 1 of a BUY grid with base price 1 and
  100.1 percent) is quantised to \<open>0\<close>.
\<close>

theorem quantize_price_counterexample:
  "quantize_price (- 1 / 1000) = Inr 0 \<and> \<not> (0::rat) \<le> - 1 / 1000"
  by code_simp

text \<open>
  C5, amended. The tick is the constant \<open>0.01\<close>. For every price \<open>p\<close> with
  \<open>|p| < 10^26\<close> (beyond that \<open>quantize\<close> raises) the quantisation succeeds and
  truncates towards zero: the result lies between \<open>0\<close> and \<open>p\<close> (so it is at most
  \<open>p\<close> when \<open>p\<close> is not negative), differs from \<open>p\<close> by less than one tick, is an
  integer multiple of \<open>0.01\<close>, and quantising it again returns it unchanged.
\<close>

theorem quantize_price_truncates:
  assumes "\<bar>p\<bar> < 10 ^ 26"
  shows "quantize_price p = Inr (quantize_down p) \<and>
    (if 0 \<le> p then 0 \<le> quantize_down p \<and> quantize_down p \<le> p
     else p \<le> quantize_down p \<and> quantize_down p \<le> 0) \<and>
    \<bar>p - quantize_down p\<bar> < 1 / 100 \<and>
    (\<exists>k::int. quantize_down p = of_int k * (1 / 100)) \<and>
    quantize_price (quantize_down p) = Inr (quantize_down p)"
proof -
  have a: "quantize_price p = Inr (quantize_down p)"
    using assms by (simp add: quantize_price_def)
  have b: "0 \<le> quantize_down p \<and> quantize_down p \<le> p" if "0 \<le> p"
  proof -
    have "0 \<le> p * 100" using that by simp
    from round_down_nonneg[OF this] show ?thesis
      by (simp add: quantize_down_def pos_divide_le_eq)
  qed
  have c: "p \<le> quantize_down p \<and> quantize_down p \<le> 0" if "\<not> 0 \<le> p"
  proof -
    have "p * 100 \<le> 0" using that by simp
    from round_down_nonpos[OF this] show ?thesis
      by (simp add: quantize_down_def pos_le_divide_eq divide_le_0_iff)
  qed
  have d: "\<bar>p - quantize_down p\<bar> < 1 / 100"
  proof -
    define r :: rat where "r = of_int (round_down (p * 100))"
    have 1: "\<bar>p * 100 - r\<bar> < 1" unfolding r_def by (rule round_down_close)
    have 2: "quantize_down p = r / 100" by (simp add: quantize_down_def r_def)
    have "p - r / 100 = (p * 100 - r) / 100" by (simp add: field_simps)
    then have 3: "\<bar>p - r / 100\<bar> = \<bar>p * 100 - r\<bar> / 100" by (simp only: abs_divide)
    have "\<bar>p * 100 - r\<bar> / 100 < 1 / 100"
      using 1 by (rule divide_strict_right_mono) simp
    then show ?thesis unfolding 2 3 .
  qed
  have e: "\<exists>k::int. quantize_down p = of_int k * (1 / 100)"
    by (rule exI[of _ "round_down (p * 100)"]) (simp add: quantize_down_def)
  have "\<bar>quantize_down p\<bar> \<le> \<bar>p\<bar>"
    using b c by (cases "0 \<le> p") auto
  then have "\<bar>quantize_down p\<bar> < 10 ^ 26" using assms by linarith
  then have f: "quantize_price (quantize_down p) = Inr (quantize_down p)"
    by (simp add: quantize_price_def quantize_down_idem)
  show ?thesis using a b c d e f by simp
qed

theorem quantize_price_truncates_witness:
  "quantize_price (1234567 / 1000) = Inr (123456 / 100) \<and>
   (123456 / 100 :: rat) \<le> 1234567 / 1000 \<and>
   quantize_price (- 1999 / 1000) = Inr (- 199 / 100) \<and>
   (- 1999 / 1000 :: rat) \<le> - 199 / 100 \<and>
   quantize_price (123456 / 100) = Inr (123456 / 100)"
proof -
  have h1: "\<bar>1234567 / 1000 :: rat\<bar> < 10 ^ 26" by simp
  have h2: "\<bar>- 1999 / 1000 :: rat\<bar> < 10 ^ 26" by simp
  have v1: "quantize_down (1234567 / 1000) = 123456 / 100" by code_simp
  have v2: "quantize_down (- 1999 / 1000) = - 199 / 100" by code_simp
  show ?thesis
    using quantize_price_truncates[OF h1] quantize_price_truncates[OF h2]
    unfolding v1 v2 by simp
qed

subsection \<open>Single orders: no validation, the OCO default\<close>

text \<open>
  C4, as the claim states it, fails: no method validates its arguments. A limit
  order with quantity \<open>0\<close> and price \<open>-1\<close> is submitted to the exchange, and when the
  exchange accepts it the order is returned.
\<close>

theorem no_validation_counterexample:
  "fst (place_limit_order accepting ''BTC'' BUY 0 (- 1) ''GTC'' new_bot) = Some (accepted 0) \<and>
   events (snd (place_limit_order accepting ''BTC'' BUY 0 (- 1) ''GTC'' new_bot)) =
     [CreateOrder
        \<lparr>symbol = ''BTCUSDT'', side = BUY, otype = LIMIT, quantity = 0,
         timeInForce = Some ''GTC'', price = Some (- 1), stopPrice = None,
         stopLimitPrice = None, stopLimitTimeInForce = None\<rparr>] \<and>
   calls (events (snd (place_limit_order accepting ''BTC'' BUY 0 (- 1) ''GTC'' new_bot))) \<noteq> 0"
  by code_simp

text \<open>
  C4, amended. The market, limit and stop-limit methods perform no validation:
  whatever the signs of quantity, price and stop price, each makes exactly one call
  to the exchange client, with the arguments unchanged, and returns \<open>None\<close> exactly
  when that call raises.
\<close>

theorem single_orders_submit_unchecked:
  "events (snd (place_market_order E raw sd qty s)) =
     events s @
       [CreateOrder
          \<lparr>symbol = clean_symbol raw, side = sd, otype = MARKET, quantity = qty,
           timeInForce = None, price = None, stopPrice = None,
           stopLimitPrice = None, stopLimitTimeInForce = None\<rparr>] \<and>
   fst (place_market_order E raw sd qty s) =
     (case create_order E (calls (events s))
          \<lparr>symbol = clean_symbol raw, side = sd, otype = MARKET, quantity = qty,
           timeInForce = None, price = None, stopPrice = None,
           stopLimitPrice = None, stopLimitTimeInForce = None\<rparr> of
        Inl e \<Rightarrow> None | Inr x \<Rightarrow> Some x) \<and>
   events (snd (place_limit_order E raw sd qty p tif s)) =
     events s @
       [CreateOrder
          \<lparr>symbol = clean_symbol raw, side = sd, otype = LIMIT, quantity = qty,
           timeInForce = Some tif, price = Some p, stopPrice = None,
           stopLimitPrice = None, stopLimitTimeInForce = None\<rparr>] \<and>
   fst (place_limit_order E raw sd qty p tif s) =
     (case create_order E (calls (events s))
          \<lparr>symbol = clean_symbol raw, side = sd, otype = LIMIT, quantity = qty,
           timeInForce = Some tif, price = Some p, stopPrice = None,
           stopLimitPrice = None, stopLimitTimeInForce = None\<rparr> of
        Inl e \<Rightarrow> None | Inr x \<Rightarrow> Some x) \<and>
   events (snd (place_stop_limit_order E raw sd qty p stop tif s)) =
     events s @
       [CreateOrder
          \<lparr>symbol = clean_symbol raw, side = sd, otype = STOP_LIMIT, quantity = qty,
           timeInForce = Some tif, price = Some p, stopPrice = Some stop,
           stopLimitPrice = None, stopLimitTimeInForce = None\<rparr>] \<and>
   fst (place_stop_limit_order E raw sd qty p stop tif s) =
     (case create_order E (calls (events s))
          \<lparr>symbol = clean_symbol raw, side = sd, otype = STOP_LIMIT, quantity = qty,
           timeInForce = Some tif, price = Some p, stopPrice = Some stop,
           stopLimitPrice = None, stopLimitTimeInForce = None\<rparr> of
        Inl e \<Rightarrow> None | Inr x \<Rightarrow> Some x)"
  by (simp add: place_market_order_def place_limit_order_def place_stop_limit_order_def
      futures_create_order_def record_order_def split: sum.splits)

text \<open>
  C9. An OCO placement submits one request. When \<open>stop_limit_price\<close> is \<open>None\<close> the
  request carries \<open>stopLimitPrice = stop_price\<close>; when a value is supplied the request
  carries that value.
\<close>

theorem oco_stop_limit_defaults_to_stop:
  "events (snd (place_oco_order E raw sd qty p stop None s)) =
     events s @
       [CreateOrder
          \<lparr>symbol = clean_symbol raw, side = sd, otype = LIMIT, quantity = qty,
           timeInForce = Some ''GTC'', price = Some p, stopPrice = Some stop,
           stopLimitPrice = Some stop, stopLimitTimeInForce = Some ''GTC''\<rparr>] \<and>
   events (snd (place_oco_order E raw sd qty p stop (Some v) s)) =
     events s @
       [CreateOrder
          \<lparr>symbol = clean_symbol raw, side = sd, otype = LIMIT, quantity = qty,
           timeInForce = Some ''GTC'', price = Some p, stopPrice = Some stop,
           stopLimitPrice = Some v, stopLimitTimeInForce = Some ''GTC''\<rparr>]"
  by (simp add: place_oco_order_def futures_create_order_def record_order_def
      split: sum.splits)

subsection \<open>The loops\<close>

text \<open>Splitting a loop, and a relation that every iteration keeps.\<close>

lemma for_each_append:
  "for_each body (xs @ ys) a =
     (case for_each body xs a of
        (Some e, a1) \<Rightarrow> (Some e, a1)
      | (None, a1) \<Rightarrow> for_each body ys a1)"
  by (induction xs arbitrary: a) (auto split: prod.splits option.splits)

lemma for_each_rel:
  assumes refl: "\<And>a. R a a"
    and trans: "\<And>a b c. R a b \<Longrightarrow> R b c \<Longrightarrow> R a c"
    and step: "\<And>i a. R a (snd (body i a))"
  shows "R a (snd (for_each body xs a))"
proof (induction xs arbitrary: a)
  case Nil
  show ?case by (simp add: refl)
next
  case (Cons i xs)
  obtain x a1 where b: "body i a = (x, a1)" by (cases "body i a")
  have 1: "R a a1" using step[of a i] b by simp
  show ?case
  proof (cases x)
    case None
    have "R a1 (snd (for_each body xs a1))" by (rule Cons.IH)
    with 1 have "R a (snd (for_each body xs a1))" by (rule trans)
    then show ?thesis using b None by simp
  next
    case (Some e)
    then show ?thesis using b 1 by simp
  qed
qed

lemma ledger_step_refl: "ledger_step a a"
  by (simp add: ledger_step_def)

lemma ledger_step_trans: "ledger_step a b \<Longrightarrow> ledger_step b c \<Longrightarrow> ledger_step a c"
  unfolding ledger_step_def
proof -
  assume "\<exists>new. fst b = fst a @ new \<and>
        map response (order_history (snd b)) = map response (order_history (snd a)) @ new \<and>
        orders (snd b) = fold (\<lambda>x m. m(orderId x \<mapsto> x)) new (orders (snd a))"
  then obtain n1 where 1: "fst b = fst a @ n1"
    "map response (order_history (snd b)) = map response (order_history (snd a)) @ n1"
    "orders (snd b) = fold (\<lambda>x m. m(orderId x \<mapsto> x)) n1 (orders (snd a))" by blast
  assume "\<exists>new. fst c = fst b @ new \<and>
        map response (order_history (snd c)) = map response (order_history (snd b)) @ new \<and>
        orders (snd c) = fold (\<lambda>x m. m(orderId x \<mapsto> x)) new (orders (snd b))"
  then obtain n2 where 2: "fst c = fst b @ n2"
    "map response (order_history (snd c)) = map response (order_history (snd b)) @ n2"
    "orders (snd c) = fold (\<lambda>x m. m(orderId x \<mapsto> x)) n2 (orders (snd b))" by blast
  show "\<exists>new. fst c = fst a @ new \<and>
        map response (order_history (snd c)) = map response (order_history (snd a)) @ new \<and>
        orders (snd c) = fold (\<lambda>x m. m(orderId x \<mapsto> x)) new (orders (snd a))"
    by (rule exI[of _ "n1 @ n2"]) (simp add: 1 2)
qed

lemma grid_body_ledger: "ledger_step a (snd (grid_body E clean sd qpl b pct level a))"
proof (cases a)
  case (Pair placed s)
  show ?thesis
  proof (cases "quantize_price (grid_level_price sd b pct level)")
    case (Inl e)
    then show ?thesis using Pair by (simp add: grid_body_def ledger_step_def)
  next
    case (Inr p)
    show ?thesis
    proof (cases "create_order E (calls (events s)) (grid_request clean sd qpl p)")
      case (Inl e)
      then show ?thesis using Pair Inr
        by (simp add: grid_body_def futures_create_order_def ledger_step_def)
    next
      case (Inr x)
      then show ?thesis using Pair \<open>quantize_price (grid_level_price sd b pct level) = Inr p\<close>
        by (simp add: grid_body_def futures_create_order_def ledger_step_def record_order_def)
    qed
  qed
qed

lemma twap_body_ledger: "ledger_step a (snd (twap_body E clean sd qps n t k a))"
proof (cases a)
  case (Pair placed s)
  show ?thesis
  proof (cases "create_order E (calls (events s)) (twap_request clean sd qps)")
    case (Inl e)
    then show ?thesis using Pair
      by (simp add: twap_body_def futures_create_order_def ledger_step_def)
  next
    case (Inr x)
    then show ?thesis using Pair
      by (simp add: twap_body_def futures_create_order_def ledger_step_def record_order_def
          sleep_def Let_def)
  qed
qed

lemma grid_try_ledger:
  "ledger_step ([], s) (snd (place_grid_order_try E raw sd qty b n pct s))"
proof (cases "n = 0")
  case True
  then show ?thesis by (simp add: place_grid_order_try_def ledger_step_refl)
next
  case False
  have "ledger_step ([], s)
     (snd (for_each (grid_body E (clean_symbol raw) sd (qty / of_int n) b pct) [0 ..< nat n] ([], s)))"
    by (rule for_each_rel[where R = ledger_step])
       (rule ledger_step_refl, erule (1) ledger_step_trans, rule grid_body_ledger)
  then show ?thesis using False by (simp add: place_grid_order_try_def)
qed

lemma twap_try_ledger:
  "ledger_step ([], s) (snd (place_twap_order_try E raw sd qty n t s))"
proof (cases "n = 0")
  case True
  then show ?thesis by (simp add: place_twap_order_try_def ledger_step_refl)
next
  case False
  have "ledger_step ([], s)
     (snd (for_each (twap_body E (clean_symbol raw) sd (qty / of_int n) n t) [0 ..< nat n] ([], s)))"
    by (rule for_each_rel[where R = ledger_step])
       (rule ledger_step_refl, erule (1) ledger_step_trans, rule twap_body_ledger)
  then show ?thesis using False by (simp add: place_twap_order_try_def)
qed

text \<open>The first levels of a grid run, all accepted; then one rejected.\<close>

lemma recorded_Suc: "recorded ord (Suc k) m = (recorded ord k m)(orderId (ord k) \<mapsto> ord k)"
  by (simp add: recorded_def)

lemma recorded_0 [simp]: "recorded ord 0 m = m"
  by (simp add: recorded_def)

lemma after_grid_0 [simp]: "after_grid E ord req 0 s = s"
  by (simp add: after_grid_def)

lemma calls_after_grid [simp]: "calls (events (after_grid E ord req k s)) = calls (events s) + k"
  by (simp add: after_grid_def)

lemma length_history_after_grid [simp]:
  "length (order_history (after_grid E ord req k s)) = length (order_history s) + k"
  by (simp add: after_grid_def)

lemma grid_body_ok:
  assumes "\<bar>grid_level_price sd b pct level\<bar> < 10 ^ 26"
    and "create_order E (calls (events s))
        (grid_request clean sd qpl (quantize_down (grid_level_price sd b pct level))) = Inr x"
  shows "grid_body E clean sd qpl b pct level (placed, s) =
     (None, (placed @ [x],
        s\<lparr>orders := (orders s)(orderId x \<mapsto> x),
          order_history := order_history s @
            [\<lparr>response = x, timestamp = now E (length (order_history s)), order_type = GRID,
              stop_price = None, grid_level = Some (level + 1), slice_number = None\<rparr>],
          events := events s @
            [CreateOrder (grid_request clean sd qpl (quantize_down (grid_level_price sd b pct level)))]\<rparr>))"
  using assms
  by (simp add: grid_body_def quantize_price_def futures_create_order_def record_order_def)

lemma grid_body_rejected:
  assumes "\<bar>grid_level_price sd b pct level\<bar> < 10 ^ 26"
    and "create_order E (calls (events s))
        (grid_request clean sd qpl (quantize_down (grid_level_price sd b pct level))) = Inl e"
  shows "grid_body E clean sd qpl b pct level (placed, s) =
     (Some e, (placed,
        s\<lparr>events := events s @
            [CreateOrder (grid_request clean sd qpl (quantize_down (grid_level_price sd b pct level)))]\<rparr>))"
  using assms
  by (simp add: grid_body_def quantize_price_def futures_create_order_def)

lemma grid_levels_ok:
  assumes q: "\<And>i. i < k \<Longrightarrow> \<bar>grid_level_price sd b pct i\<bar> < 10 ^ 26"
    and c: "\<And>i. i < k \<Longrightarrow>
      create_order E (calls (events s) + i)
        (grid_request clean sd qpl (quantize_down (grid_level_price sd b pct i))) = Inr (ord i)"
  shows "for_each (grid_body E clean sd qpl b pct) [0 ..< k] (placed, s) =
     (None, (placed @ map ord [0 ..< k],
        after_grid E ord (\<lambda>i. grid_request clean sd qpl (quantize_down (grid_level_price sd b pct i))) k s))"
  using assms
proof (induction k)
  case 0
  then show ?case by simp
next
  case (Suc k)
  let ?req = "\<lambda>i. grid_request clean sd qpl (quantize_down (grid_level_price sd b pct i))"
  let ?sk = "after_grid E ord ?req k s"
  have IH: "for_each (grid_body E clean sd qpl b pct) [0 ..< k] (placed, s) =
     (None, (placed @ map ord [0 ..< k], ?sk))"
    using Suc by simp
  have q: "\<bar>grid_level_price sd b pct k\<bar> < 10 ^ 26"
    using Suc.prems(1)[of k] by simp
  have c: "create_order E (calls (events ?sk)) (?req k) = Inr (ord k)"
    using Suc.prems(2)[of k] by simp
  have step: "grid_body E clean sd qpl b pct k (placed @ map ord [0 ..< k], ?sk) =
     (None, ((placed @ map ord [0 ..< k]) @ [ord k], after_grid E ord ?req (Suc k) s))"
    by (simp add: grid_body_ok[OF q c]) (simp add: after_grid_def grid_entry_def recorded_Suc)
  show ?case
    by (simp add: for_each_append IH step)
qed

lemma upt_split: "k < n \<Longrightarrow> [0 ..< n] = [0 ..< k] @ k # [Suc k ..< n]"
proof -
  assume kn: "k < n"
  have "[0 ..< k + (n - k)] = [0 ..< k] @ [k ..< k + (n - k)]"
    by (rule upt_add_eq_append) simp
  then have "[0 ..< n] = [0 ..< k] @ [k ..< n]" using kn by simp
  then show ?thesis using kn by (simp add: upt_conv_Cons)
qed

lemma grid_levels_rejected:
  assumes kn: "k < n"
    and q: "\<And>i. i \<le> k \<Longrightarrow> \<bar>grid_level_price sd b pct i\<bar> < 10 ^ 26"
    and c: "\<And>i. i < k \<Longrightarrow>
      create_order E (calls (events s) + i)
        (grid_request clean sd qpl (quantize_down (grid_level_price sd b pct i))) = Inr (ord i)"
    and r: "create_order E (calls (events s) + k)
        (grid_request clean sd qpl (quantize_down (grid_level_price sd b pct k))) = Inl e"
  shows "for_each (grid_body E clean sd qpl b pct) [0 ..< n] (placed, s) =
     (Some e, (placed @ map ord [0 ..< k],
        (after_grid E ord (\<lambda>i. grid_request clean sd qpl (quantize_down (grid_level_price sd b pct i))) k s)
          \<lparr>events := events s @
             map (\<lambda>i. CreateOrder (grid_request clean sd qpl (quantize_down (grid_level_price sd b pct i))))
               [0 ..< Suc k]\<rparr>))"
proof -
  let ?req = "\<lambda>i. grid_request clean sd qpl (quantize_down (grid_level_price sd b pct i))"
  let ?sk = "after_grid E ord ?req k s"
  have ok: "for_each (grid_body E clean sd qpl b pct) [0 ..< k] (placed, s) =
     (None, (placed @ map ord [0 ..< k], ?sk))"
    using q c by (intro grid_levels_ok) auto
  have qk: "\<bar>grid_level_price sd b pct k\<bar> < 10 ^ 26" using q[of k] by simp
  have rk: "create_order E (calls (events ?sk)) (?req k) = Inl e" using r by simp
  have step: "grid_body E clean sd qpl b pct k (placed @ map ord [0 ..< k], ?sk) =
     (Some e, (placed @ map ord [0 ..< k],
        ?sk\<lparr>events := events s @ map (\<lambda>i. CreateOrder (?req i)) [0 ..< Suc k]\<rparr>))"
    by (simp add: grid_body_rejected[OF qk rk]) (simp add: after_grid_def)
  show ?thesis
    by (simp only: upt_split[OF kn] for_each_append ok) (simp add: step)
qed

subsection \<open>An exception empties the result, not the ledger\<close>

text \<open>
  C10. When the \<open>try\<close> block of a grid run or of a TWAP run ends with an exception
  (whatever raised it), the method returns the empty list, and the state it leaves
  holds, in \<open>order_history\<close> and in \<open>orders\<close>, every order that had been placed before
  the exception (the list \<open>placed\<close>, which is discarded). Nothing is rolled back.
\<close>

theorem exception_empties_result_not_ledger:
  "(place_grid_order_try E raw sd qty b n pct s = (Some e, (placed, s1)) \<longrightarrow>
      place_grid_order E raw sd qty b n pct s = ([], s1) \<and>
      map response (order_history s1) = map response (order_history s) @ placed \<and>
      orders s1 = fold (\<lambda>x m. m(orderId x \<mapsto> x)) placed (orders s)) \<and>
   (place_twap_order_try E raw sd qty n t s = (Some e, (placed, s1)) \<longrightarrow>
      place_twap_order E raw sd qty n t s = ([], s1) \<and>
      map response (order_history s1) = map response (order_history s) @ placed \<and>
      orders s1 = fold (\<lambda>x m. m(orderId x \<mapsto> x)) placed (orders s))"
proof (intro conjI impI)
  assume a: "place_grid_order_try E raw sd qty b n pct s = (Some e, placed, s1)"
  then show "place_grid_order E raw sd qty b n pct s = ([], s1)"
    by (simp add: place_grid_order_def)
  from grid_try_ledger[of s E raw sd qty b n pct] a
  show "map response (order_history s1) = map response (order_history s) @ placed"
    and "orders s1 = fold (\<lambda>x m. m(orderId x \<mapsto> x)) placed (orders s)"
    by (simp_all add: ledger_step_def)
next
  assume a: "place_twap_order_try E raw sd qty n t s = (Some e, placed, s1)"
  then show "place_twap_order E raw sd qty n t s = ([], s1)"
    by (simp add: place_twap_order_def)
  from twap_try_ledger[of s E raw sd qty n t] a
  show "map response (order_history s1) = map response (order_history s) @ placed"
    and "orders s1 = fold (\<lambda>x m. m(orderId x \<mapsto> x)) placed (orders s)"
    by (simp_all add: ledger_step_def)
qed

theorem exception_empties_result_not_ledger_witness:
  "fst (place_grid_order (failing_at 2) ''BTC'' BUY 1 50000 5 2 new_bot) = [] \<and>
   map response (order_history (snd (place_grid_order (failing_at 2) ''BTC'' BUY 1 50000 5 2 new_bot)))
     = [accepted 0, accepted 1] \<and>
   fst (place_twap_order (failing_at 1) ''BTC'' BUY 1 5 60 new_bot) = [] \<and>
   map response (order_history (snd (place_twap_order (failing_at 1) ''BTC'' BUY 1 5 60 new_bot)))
     = [accepted 0]"
proof -
  let ?g = "place_grid_order_try (failing_at 2) ''BTC'' BUY 1 50000 5 2 new_bot"
  let ?t = "place_twap_order_try (failing_at 1) ''BTC'' BUY 1 5 60 new_bot"
  have g1: "fst ?g = Some BinanceAPIException" by code_simp
  have g2: "fst (snd ?g) = [accepted 0, accepted 1]" by code_simp
  have g: "?g = (Some BinanceAPIException, ([accepted 0, accepted 1], snd (snd ?g)))"
    using g1 g2 by (metis prod.collapse)
  have t1: "fst ?t = Some BinanceAPIException" by code_simp
  have t2: "fst (snd ?t) = [accepted 0]" by code_simp
  have t: "?t = (Some BinanceAPIException, ([accepted 0], snd (snd ?t)))"
    using t1 t2 by (metis prod.collapse)
  have h0: "order_history new_bot = []" by (simp add: new_bot_def)
  note G = exception_empties_result_not_ledger[THEN conjunct1, rule_format, OF g]
  note T = exception_empties_result_not_ledger[THEN conjunct2, rule_format, OF t]
  show ?thesis using G T by (simp add: h0)
qed

subsection \<open>Grid runs\<close>

text \<open>
  C1, as the claim states it, fails: the loop has no handler of its own, so the first
  rejected level ends the run. With five levels of which the third is rejected, the
  result is empty (not four orders), the ledger gained two entries (not four), and
  three requests were submitted (the last two levels were never attempted).
\<close>

theorem grid_failure_counterexample:
  "fst (place_grid_order (failing_at 2) ''BTC'' BUY 1 50000 5 2 new_bot) = [] \<and>
   length (fst (place_grid_order (failing_at 2) ''BTC'' BUY 1 50000 5 2 new_bot)) \<noteq> 4 \<and>
   length (order_history (snd (place_grid_order (failing_at 2) ''BTC'' BUY 1 50000 5 2 new_bot))) = 2 \<and>
   calls (events (snd (place_grid_order (failing_at 2) ''BTC'' BUY 1 50000 5 2 new_bot))) = 3"
  by code_simp

text \<open>
  C1, amended. When the levels before level \<open>k\<close> (counted from 0) are accepted and
  level \<open>k\<close> is rejected by the exchange, the run is aborted: the result is the empty
  list, the ledger has gained exactly the \<open>k\<close> entries of the accepted levels (grid
  levels \<open>1..k\<close>), and exactly \<open>k + 1\<close> requests were submitted, so that no later level
  was attempted.
\<close>

theorem grid_failure_aborts_run:
  assumes "k < n"
    and "\<And>i. i \<le> k \<Longrightarrow> \<bar>grid_level_price sd b pct i\<bar> < 10 ^ 26"
    and "\<And>i. i < k \<Longrightarrow>
      create_order E (calls (events s) + i) (grid_level_request raw sd qty b n pct i) = Inr (ord i)"
    and "create_order E (calls (events s) + k) (grid_level_request raw sd qty b n pct k) = Inl e"
  shows "fst (place_grid_order E raw sd qty b (int n) pct s) = [] \<and>
    order_history (snd (place_grid_order E raw sd qty b (int n) pct s)) =
      order_history s @ map (grid_entry E (length (order_history s)) ord) [0 ..< k] \<and>
    orders (snd (place_grid_order E raw sd qty b (int n) pct s)) = recorded ord k (orders s) \<and>
    events (snd (place_grid_order E raw sd qty b (int n) pct s)) =
      events s @ map (\<lambda>i. CreateOrder (grid_level_request raw sd qty b n pct i)) [0 ..< Suc k]"
proof -
  have n0: "int n \<noteq> 0" using assms(1) by simp
  have "for_each (grid_body E (clean_symbol raw) sd (qty / of_nat n) b pct) [0 ..< n] ([], s) =
     (Some e, ([] @ map ord [0 ..< k],
        (after_grid E ord (\<lambda>i. grid_request (clean_symbol raw) sd (qty / of_nat n)
             (quantize_down (grid_level_price sd b pct i))) k s)
          \<lparr>events := events s @
             map (\<lambda>i. CreateOrder (grid_request (clean_symbol raw) sd (qty / of_nat n)
               (quantize_down (grid_level_price sd b pct i)))) [0 ..< Suc k]\<rparr>))"
    using assms by (intro grid_levels_rejected) (simp_all add: grid_level_request_def)
  then show ?thesis
    using n0 by (simp add: place_grid_order_def place_grid_order_try_def after_grid_def
        grid_level_request_def)
qed

theorem grid_failure_aborts_run_witness:
  "fst (place_grid_order (failing_at 2) ''BTC'' BUY 1 50000 5 2 new_bot) = [] \<and>
   length (order_history (snd (place_grid_order (failing_at 2) ''BTC'' BUY 1 50000 5 2 new_bot))) = 2 \<and>
   length (events (snd (place_grid_order (failing_at 2) ''BTC'' BUY 1 50000 5 2 new_bot))) = 3"
proof -
  have h1: "(2::nat) < 5" by simp
  have h2: "\<bar>grid_level_price BUY 50000 2 i\<bar> < 10 ^ 26" if "i \<le> 2" for i
  proof -
    have "i = 0 \<or> i = 1 \<or> i = 2" using that by arith
    then show ?thesis by (auto simp: grid_level_price_def)
  qed
  have h3: "create_order (failing_at 2) (calls (events new_bot) + i)
      (grid_level_request ''BTC'' BUY 1 50000 5 2 i) = Inr (accepted i)" if "i < 2" for i
    using that by (simp add: failing_at_def new_bot_def)
  have h4: "create_order (failing_at 2) (calls (events new_bot) + 2)
      (grid_level_request ''BTC'' BUY 1 50000 5 2 2) = Inl BinanceAPIException"
    by (simp add: failing_at_def new_bot_def)
  show ?thesis
    using grid_failure_aborts_run[of 2 5 BUY 50000 2 "failing_at 2" new_bot "''BTC''" 1 accepted
        BinanceAPIException, OF h1 h2 h3 h4]
    by (simp add: new_bot_def)
qed

text \<open>Monotone prices, and the run in which every level is accepted.\<close>

lemma sorted_map_upt:
  fixes f :: "nat \<Rightarrow> rat"
  assumes "\<And>i j. i \<le> j \<Longrightarrow> j < n \<Longrightarrow> f i \<le> f j"
  shows "sorted (map f [0 ..< n])"
  using assms by (simp add: sorted_iff_nth_mono)

lemma sorted_rev_map_upt:
  fixes f :: "nat \<Rightarrow> rat"
  assumes "\<And>i j. i \<le> j \<Longrightarrow> j < n \<Longrightarrow> f j \<le> f i"
  shows "sorted (rev (map f [0 ..< n]))"
  using assms by (simp add: sorted_rev_iff_nth_mono)

lemma grid_level_price_sell_mono:
  assumes "0 \<le> b" "0 \<le> pct" "i \<le> j"
  shows "grid_level_price SELL b pct i \<le> grid_level_price SELL b pct j"
proof -
  have "(of_nat i :: rat) \<le> of_nat j" using assms(3) by simp
  then have "of_nat i * pct \<le> of_nat j * pct" using assms(2) by (rule mult_right_mono)
  then have "1 + of_nat i * pct / 100 \<le> 1 + of_nat j * pct / 100"
    by (simp add: divide_right_mono)
  then show ?thesis using assms(1) by (simp add: grid_level_price_def mult_left_mono)
qed

lemma grid_level_price_buy_antimono:
  assumes "0 \<le> b" "0 \<le> pct" "i \<le> j"
  shows "grid_level_price BUY b pct j \<le> grid_level_price BUY b pct i"
proof -
  have "(of_nat i :: rat) \<le> of_nat j" using assms(3) by simp
  then have "of_nat i * pct \<le> of_nat j * pct" using assms(2) by (rule mult_right_mono)
  then have "1 - of_nat j * pct / 100 \<le> 1 - of_nat i * pct / 100"
    by (simp add: divide_right_mono)
  then show ?thesis using assms(1) by (simp add: grid_level_price_def mult_left_mono)
qed

lemma grid_run_accepted:
  assumes "0 < n"
    and "\<And>i. i < n \<Longrightarrow> \<bar>grid_level_price sd b pct i\<bar> < 10 ^ 26"
    and "\<And>i. i < n \<Longrightarrow>
      create_order E (calls (events s) + i) (grid_level_request raw sd qty b n pct i) = Inr (ord i)"
  shows "place_grid_order E raw sd qty b (int n) pct s =
     (map ord [0 ..< n], after_grid E ord (grid_level_request raw sd qty b n pct) n s)"
proof -
  have n0: "int n \<noteq> 0" using assms(1) by simp
  have "for_each (grid_body E (clean_symbol raw) sd (qty / of_nat n) b pct) [0 ..< n] ([], s) =
     (None, ([] @ map ord [0 ..< n],
        after_grid E ord (\<lambda>i. grid_request (clean_symbol raw) sd (qty / of_nat n)
             (quantize_down (grid_level_price sd b pct i))) n s))"
    using assms by (intro grid_levels_ok) (simp_all add: grid_level_request_def)
  moreover have "grid_level_request raw sd qty b n pct =
      (\<lambda>i. grid_request (clean_symbol raw) sd (qty / of_nat n)
             (quantize_down (grid_level_price sd b pct i)))"
    by (rule ext) (simp add: grid_level_request_def)
  ultimately show ?thesis
    using n0 by (simp add: place_grid_order_def place_grid_order_try_def)
qed

text \<open>
  C6. For a grid with \<open>n \<ge> 1\<close> levels, a base price and a percentage that are not
  negative, level prices within the range of the quantiser, and an exchange that
  accepts every level: exactly \<open>n\<close> requests are submitted and \<open>n\<close> orders returned;
  the prices of the requests, in level order, are non-increasing for BUY and
  non-decreasing for SELL; the quantities of the requests add up to the total
  quantity (exactly, in the exact arithmetic of the model).
\<close>

theorem grid_run_shape:
  assumes "0 < n" and "0 \<le> b" and "0 \<le> pct"
    and "\<And>i. i < n \<Longrightarrow> \<bar>grid_level_price sd b pct i\<bar> < 10 ^ 26"
    and "\<And>i. i < n \<Longrightarrow>
      create_order E (calls (events s) + i) (grid_level_request raw sd qty b n pct i) = Inr (ord i)"
  shows "\<exists>reqs ps.
    events (snd (place_grid_order E raw sd qty b (int n) pct s)) =
      events s @ map CreateOrder reqs \<and>
    length reqs = n \<and>
    length (fst (place_grid_order E raw sd qty b (int n) pct s)) = n \<and>
    map price reqs = map Some ps \<and>
    (if sd = BUY then sorted (rev ps) else sorted ps) \<and>
    sum_list (map quantity reqs) = qty"
proof -
  let ?reqs = "map (grid_level_request raw sd qty b n pct) [0 ..< n]"
  let ?f = "\<lambda>i. quantize_down (grid_level_price sd b pct i)"
  let ?ps = "map ?f [0 ..< n]"
  have run: "place_grid_order E raw sd qty b (int n) pct s =
     (map ord [0 ..< n], after_grid E ord (grid_level_request raw sd qty b n pct) n s)"
    using assms(1,4,5) by (rule grid_run_accepted)
  have ev: "events (snd (place_grid_order E raw sd qty b (int n) pct s)) =
      events s @ map CreateOrder ?reqs"
    by (simp add: run after_grid_def)
  have len: "length (fst (place_grid_order E raw sd qty b (int n) pct s)) = n"
    by (simp add: run)
  have pr: "map price ?reqs = map Some ?ps"
    by (simp add: grid_level_request_def grid_request_def)
  have srt: "if sd = BUY then sorted (rev ?ps) else sorted ?ps"
  proof (cases sd)
    case BUY
    have "sorted (rev (map ?f [0 ..< n]))"
      by (rule sorted_rev_map_upt)
         (simp add: BUY quantize_down_mono grid_level_price_buy_antimono assms(2,3))
    then show ?thesis using BUY by simp
  next
    case SELL
    have "sorted (map ?f [0 ..< n])"
      by (rule sorted_map_upt)
         (simp add: SELL quantize_down_mono grid_level_price_sell_mono assms(2,3))
    then show ?thesis using SELL by simp
  qed
  have "sum_list (map quantity ?reqs) = sum_list (map (\<lambda>i. qty / of_nat n) [0 ..< n])"
    by (simp add: grid_level_request_def grid_request_def comp_def)
  also have "\<dots> = of_nat n * (qty / of_nat n)" by (simp add: sum_list_triv)
  also have "\<dots> = qty" using assms(1) by simp
  finally have sm: "sum_list (map quantity ?reqs) = qty" .
  show ?thesis
    apply (rule exI[of _ ?reqs])
    apply (rule exI[of _ ?ps])
    using ev len pr srt sm by simp
qed


text \<open>
  The scenario of the specification, \<open>PlaceGrid("BTC", BUY, 1.0, 50000, levels=5,
  percentage=2.0)\<close> on an exchange that accepts every request: five LIMIT requests at
  \<open>50000, 49000, 48000, 47000, 46000\<close>, each for the quantity \<open>1/5\<close>.
\<close>

lemma scenario_prices_in_range:
  "i < 5 \<Longrightarrow> \<bar>grid_level_price BUY 50000 2 i\<bar> < 10 ^ 26"
proof -
  assume "i < 5"
  then have "i = 0 \<or> i = 1 \<or> i = 2 \<or> i = 3 \<or> i = 4" by arith
  then show ?thesis by (auto simp: grid_level_price_def)
qed

lemma accepting_accepts: "create_order accepting n req = Inr (accepted n)"
  by (simp add: accepting_def)

theorem grid_run_shape_witness:
  "\<exists>reqs ps.
    events (snd (place_grid_order accepting ''BTC'' BUY 1 50000 5 2 new_bot)) =
      map CreateOrder reqs \<and>
    length reqs = 5 \<and>
    length (fst (place_grid_order accepting ''BTC'' BUY 1 50000 5 2 new_bot)) = 5 \<and>
    map price reqs = map Some ps \<and>
    sorted (rev ps) \<and>
    sum_list (map quantity reqs) = 1"
proof -
  have h1: "(0::nat) < 5" by simp
  have h2: "(0::rat) \<le> 50000" by simp
  have h3: "(0::rat) \<le> 2" by simp
  have h5: "\<And>i. i < 5 \<Longrightarrow> create_order accepting (calls (events new_bot) + i)
      (grid_level_request ''BTC'' BUY 1 50000 5 2 i) = Inr (accepted i)"
    by (simp add: accepting_accepts new_bot_def)
  show ?thesis
    using grid_run_shape[of 5 50000 2 BUY accepting new_bot "''BTC''" 1 accepted,
        OF h1 h2 h3 scenario_prices_in_range h5]
    by (simp add: new_bot_def)
qed


subsection \<open>TWAP runs\<close>

text \<open>The events of the slices, the accepted slices, and a rejected one.\<close>

lemma twap_events_0 [simp]: "twap_events req t n 0 = []"
  by (simp add: twap_events_def)

lemma twap_events_Suc:
  "twap_events req t n (Suc k) =
     twap_events req t n k @ CreateOrder req # (if Suc k < n then [Sleep t] else [])"
  by (simp add: twap_events_def)

lemma calls_twap_events [simp]: "calls (twap_events req t n k) = k"
  by (induction k) (simp_all add: twap_events_Suc)

lemma concat_replicate_snoc:
  "concat (replicate k xs) @ xs = xs @ concat (replicate k xs)"
  by (induction k) simp_all

lemma twap_events_before_last:
  "k < n \<Longrightarrow> twap_events req t n k = concat (replicate k [CreateOrder req, Sleep t])"
proof (induction k)
  case 0
  show ?case by simp
next
  case (Suc k)
  then have "twap_events req t n (Suc k) =
      concat (replicate k [CreateOrder req, Sleep t]) @ [CreateOrder req, Sleep t]"
    by (simp add: twap_events_Suc)
  also have "\<dots> = concat (replicate (Suc k) [CreateOrder req, Sleep t])"
    by (simp only: concat_replicate_snoc) simp
  finally show ?case .
qed

lemma concat_replicate_shift:
  "concat (replicate m [a, b]) @ [a] = a # concat (replicate m [b, a])"
  by (induction m) simp_all

lemma twap_events_all:
  assumes "0 < n"
  shows "twap_events req t n n =
     CreateOrder req # concat (replicate (n - 1) [Sleep t, CreateOrder req])"
proof -
  obtain m where n: "n = Suc m" using assms by (cases n) auto
  have "twap_events req t (Suc m) (Suc m) = twap_events req t (Suc m) m @ [CreateOrder req]"
    by (simp add: twap_events_Suc)
  also have "\<dots> = concat (replicate m [CreateOrder req, Sleep t]) @ [CreateOrder req]"
    by (simp add: twap_events_before_last)
  also have "\<dots> = CreateOrder req # concat (replicate m [Sleep t, CreateOrder req])"
    by (rule concat_replicate_shift)
  finally show ?thesis by (simp add: n)
qed

lemma after_twap_0 [simp]: "after_twap E ord req t n 0 s = s"
  by (simp add: after_twap_def)

lemma calls_after_twap [simp]:
  "calls (events (after_twap E ord req t n k s)) = calls (events s) + k"
  by (simp add: after_twap_def)

lemma twap_body_ok:
  assumes "create_order E (calls (events s)) (twap_request clean sd qps) = Inr x"
    and "0 \<le> t"
  shows "twap_body E clean sd qps (int n) t k (placed, s) =
     (None, (placed @ [x],
        s\<lparr>orders := (orders s)(orderId x \<mapsto> x),
          order_history := order_history s @
            [\<lparr>response = x, timestamp = now E (length (order_history s)), order_type = TWAP,
              stop_price = None, grid_level = None, slice_number = Some (k + 1)\<rparr>],
          events := events s @
            CreateOrder (twap_request clean sd qps) # (if Suc k < n then [Sleep t] else [])\<rparr>))"
proof (cases "Suc k < n")
  case True
  then have "int k < int n - 1" by simp
  then show ?thesis using assms True
    by (simp add: twap_body_def futures_create_order_def record_order_def sleep_def Let_def)
next
  case False
  then have "\<not> int k < int n - 1" by simp
  then show ?thesis using assms False
    by (simp add: twap_body_def futures_create_order_def record_order_def Let_def)
qed

lemma twap_body_rejected:
  assumes "create_order E (calls (events s)) (twap_request clean sd qps) = Inl e"
  shows "twap_body E clean sd qps num_slices t k (placed, s) =
     (Some e, (placed, s\<lparr>events := events s @ [CreateOrder (twap_request clean sd qps)]\<rparr>))"
  using assms by (simp add: twap_body_def futures_create_order_def)

lemma twap_slices_ok:
  assumes t: "0 \<le> t"
    and c: "\<And>i. i < k \<Longrightarrow>
      create_order E (calls (events s) + i) (twap_request clean sd qps) = Inr (ord i)"
  shows "for_each (twap_body E clean sd qps (int n) t) [0 ..< k] (placed, s) =
     (None, (placed @ map ord [0 ..< k],
        after_twap E ord (twap_request clean sd qps) t n k s))"
  using c
proof (induction k)
  case 0
  then show ?case by simp
next
  case (Suc k)
  let ?req = "twap_request clean sd qps"
  let ?sk = "after_twap E ord ?req t n k s"
  have IH: "for_each (twap_body E clean sd qps (int n) t) [0 ..< k] (placed, s) =
     (None, (placed @ map ord [0 ..< k], ?sk))"
    using Suc by simp
  have c: "create_order E (calls (events ?sk)) ?req = Inr (ord k)"
    using Suc.prems[of k] by simp
  have step: "twap_body E clean sd qps (int n) t k (placed @ map ord [0 ..< k], ?sk) =
     (None, ((placed @ map ord [0 ..< k]) @ [ord k], after_twap E ord ?req t n (Suc k) s))"
    by (simp add: twap_body_ok[OF c t])
       (simp add: after_twap_def twap_entry_def recorded_Suc twap_events_Suc)
  show ?case
    by (simp add: for_each_append IH step)
qed

lemma twap_slices_rejected:
  assumes kn: "k < n"
    and t: "0 \<le> t"
    and c: "\<And>i. i < k \<Longrightarrow>
      create_order E (calls (events s) + i) (twap_request clean sd qps) = Inr (ord i)"
    and r: "create_order E (calls (events s) + k) (twap_request clean sd qps) = Inl e"
  shows "for_each (twap_body E clean sd qps (int n) t) [0 ..< n] (placed, s) =
     (Some e, (placed @ map ord [0 ..< k],
        (after_twap E ord (twap_request clean sd qps) t n k s)
          \<lparr>events := events s @ twap_events (twap_request clean sd qps) t n k @
             [CreateOrder (twap_request clean sd qps)]\<rparr>))"
proof -
  let ?req = "twap_request clean sd qps"
  let ?sk = "after_twap E ord ?req t n k s"
  have ok: "for_each (twap_body E clean sd qps (int n) t) [0 ..< k] (placed, s) =
     (None, (placed @ map ord [0 ..< k], ?sk))"
    using t c by (rule twap_slices_ok)
  have rk: "create_order E (calls (events ?sk)) ?req = Inl e" using r by simp
  have step: "twap_body E clean sd qps (int n) t k (placed @ map ord [0 ..< k], ?sk) =
     (Some e, (placed @ map ord [0 ..< k],
        ?sk\<lparr>events := events s @ twap_events ?req t n k @ [CreateOrder ?req]\<rparr>))"
    by (simp add: twap_body_rejected[OF rk]) (simp add: after_twap_def)
  show ?thesis
    by (simp only: upt_split[OF kn] for_each_append ok) (simp add: step)
qed

text \<open>
  C2, as the claim states it, fails in what the caller receives: the handler returns
  the empty list, not the slices collected so far (and there is no \<open>terminal\<close> flag).
  With five slices of which the second is rejected, the result is empty although one
  entry was recorded; the run did stop: two submissions, one sleep between them.
\<close>

theorem twap_failure_counterexample:
  "fst (place_twap_order (failing_at 1) ''BTC'' BUY 1 5 60 new_bot) = [] \<and>
   length (fst (place_twap_order (failing_at 1) ''BTC'' BUY 1 5 60 new_bot)) \<noteq> 1 \<and>
   length (order_history (snd (place_twap_order (failing_at 1) ''BTC'' BUY 1 5 60 new_bot))) = 1 \<and>
   events (snd (place_twap_order (failing_at 1) ''BTC'' BUY 1 5 60 new_bot)) =
     [CreateOrder (twap_request ''BTCUSDT'' BUY (1 / 5)), Sleep 60,
      CreateOrder (twap_request ''BTCUSDT'' BUY (1 / 5))]"
  by code_simp

text \<open>
  C2, amended. When the slices before slice \<open>k\<close> (counted from 0) are accepted and
  slice \<open>k\<close> is rejected, execution stops at once: every accepted slice was followed
  by one sleep, the rejected submission is the last event (no later slice is
  attempted), the ledger keeps the \<open>k\<close> entries of the accepted slices, and the caller
  receives the empty list.
\<close>

theorem twap_failure_stops_run:
  assumes "k < n" and "0 \<le> t"
    and "req = twap_request (clean_symbol raw) sd (qty / of_nat n)"
    and "\<And>i. i < k \<Longrightarrow> create_order E (calls (events s) + i) req = Inr (ord i)"
    and "create_order E (calls (events s) + k) req = Inl e"
  shows "fst (place_twap_order E raw sd qty (int n) t s) = [] \<and>
    order_history (snd (place_twap_order E raw sd qty (int n) t s)) =
      order_history s @ map (twap_entry E (length (order_history s)) ord) [0 ..< k] \<and>
    orders (snd (place_twap_order E raw sd qty (int n) t s)) = recorded ord k (orders s) \<and>
    events (snd (place_twap_order E raw sd qty (int n) t s)) =
      events s @ concat (replicate k [CreateOrder req, Sleep t]) @ [CreateOrder req]"
proof -
  have n0: "int n \<noteq> 0" using assms(1) by simp
  have "for_each (twap_body E (clean_symbol raw) sd (qty / of_nat n) (int n) t) [0 ..< n] ([], s) =
     (Some e, ([] @ map ord [0 ..< k],
        (after_twap E ord (twap_request (clean_symbol raw) sd (qty / of_nat n)) t n k s)
          \<lparr>events := events s @
             twap_events (twap_request (clean_symbol raw) sd (qty / of_nat n)) t n k @
             [CreateOrder (twap_request (clean_symbol raw) sd (qty / of_nat n))]\<rparr>))"
    using assms by (intro twap_slices_rejected) simp_all
  then show ?thesis
    using n0 assms(1,3)
    by (simp add: place_twap_order_def place_twap_order_try_def after_twap_def
        twap_events_before_last)
qed

theorem twap_failure_stops_run_witness:
  "fst (place_twap_order (failing_at 1) ''BTC'' BUY 1 5 60 new_bot) = [] \<and>
   map slice_number (order_history (snd (place_twap_order (failing_at 1) ''BTC'' BUY 1 5 60 new_bot)))
     = [Some 1] \<and>
   calls (events (snd (place_twap_order (failing_at 1) ''BTC'' BUY 1 5 60 new_bot))) = 2"
proof -
  have h1: "(1::nat) < 5" by simp
  have h2: "(0::rat) \<le> 60" by simp
  have h3: "twap_request ''BTCUSDT'' BUY (1 / 5) =
      twap_request (clean_symbol ''BTC'') BUY (1 / of_nat 5)"
    by code_simp
  have h4: "\<And>i. i < 1 \<Longrightarrow> create_order (failing_at 1) (calls (events new_bot) + i)
      (twap_request ''BTCUSDT'' BUY (1 / 5)) = Inr (accepted i)"
    by (simp add: failing_at_def new_bot_def)
  have h5: "create_order (failing_at 1) (calls (events new_bot) + 1)
      (twap_request ''BTCUSDT'' BUY (1 / 5)) = Inl BinanceAPIException"
    by (simp add: failing_at_def new_bot_def)
  show ?thesis
    using twap_failure_stops_run[OF h1 h2 h3 h4 h5]
    by (simp add: new_bot_def twap_entry_def)
qed

text \<open>
  C8. When every slice is accepted (and the interval is not negative), the events of
  a run with \<open>n\<close> slices are: the first submission, then \<open>n - 1\<close> times a sleep of
  \<open>time_interval\<close> followed by a submission; so there is a sleep between any two
  consecutive submissions and none after the last. Every request is a MARKET order,
  and the history entries carry the slice numbers \<open>1..n\<close> in this order.
\<close>

theorem twap_schedule:
  assumes "0 < n" and "0 \<le> t"
    and "req = twap_request (clean_symbol raw) sd (qty / of_nat n)"
    and "\<And>i. i < n \<Longrightarrow> create_order E (calls (events s) + i) req = Inr (ord i)"
  shows "events (snd (place_twap_order E raw sd qty (int n) t s)) =
      events s @ CreateOrder req # concat (replicate (n - 1) [Sleep t, CreateOrder req]) \<and>
    otype req = MARKET \<and>
    fst (place_twap_order E raw sd qty (int n) t s) = map ord [0 ..< n] \<and>
    order_history (snd (place_twap_order E raw sd qty (int n) t s)) =
      order_history s @ map (twap_entry E (length (order_history s)) ord) [0 ..< n]"
proof -
  have n0: "int n \<noteq> 0" using assms(1) by simp
  have "for_each (twap_body E (clean_symbol raw) sd (qty / of_nat n) (int n) t) [0 ..< n] ([], s) =
     (None, ([] @ map ord [0 ..< n],
        after_twap E ord (twap_request (clean_symbol raw) sd (qty / of_nat n)) t n n s))"
    using assms by (intro twap_slices_ok) simp_all
  then show ?thesis
    using n0 assms(1,3)
    by (simp add: place_twap_order_def place_twap_order_try_def after_twap_def
        twap_events_all twap_request_def)
qed

theorem twap_schedule_witness:
  "events (snd (place_twap_order accepting ''BTC'' BUY 1 3 60 new_bot)) =
     [CreateOrder (twap_request ''BTCUSDT'' BUY (1 / 3)), Sleep 60,
      CreateOrder (twap_request ''BTCUSDT'' BUY (1 / 3)), Sleep 60,
      CreateOrder (twap_request ''BTCUSDT'' BUY (1 / 3))] \<and>
   map slice_number (order_history (snd (place_twap_order accepting ''BTC'' BUY 1 3 60 new_bot)))
     = [Some 1, Some 2, Some 3]"
proof -
  have h1: "(0::nat) < 3" by simp
  have h2: "(0::rat) \<le> 60" by simp
  have h3: "twap_request ''BTCUSDT'' BUY (1 / 3) =
      twap_request (clean_symbol ''BTC'') BUY (1 / of_nat 3)"
    by code_simp
  have h4: "\<And>i. i < 3 \<Longrightarrow> create_order accepting (calls (events new_bot) + i)
      (twap_request ''BTCUSDT'' BUY (1 / 3)) = Inr (accepted i)"
    by (simp add: accepting_def new_bot_def)
  have r: "replicate 2 x = [x, x]" for x :: "event list"
    by (simp add: numeral_2_eq_2)
  have u: "[0 ..< 3] = [0, 1, 2]" by (simp add: upt_rec)
  show ?thesis
    using twap_schedule[OF h1 h2 h3 h4]
    by (simp add: new_bot_def twap_entry_def r u)
qed

subsection \<open>Further properties of the methods\<close>

lemma market_order_ledger_effect:
  "(if fst (place_market_order E raw sd qty s) = None
    then orders (snd (place_market_order E raw sd qty s)) = orders s \<and>
         order_history (snd (place_market_order E raw sd qty s)) = order_history s
    else map order_type (order_history (snd (place_market_order E raw sd qty s))) =
           map order_type (order_history s) @ [MARKET])"
proof (cases "create_order E (calls (events s))
    \<lparr>symbol = clean_symbol raw, side = sd, otype = MARKET, quantity = qty,
     timeInForce = None, price = None, stopPrice = None,
     stopLimitPrice = None, stopLimitTimeInForce = None\<rparr>")
  case (Inl e)
  then show ?thesis by (simp add: place_market_order_def futures_create_order_def)
next
  case (Inr x)
  then show ?thesis
    by (simp add: place_market_order_def futures_create_order_def record_order_def)
qed

lemma limit_order_ledger_effect:
  "(if fst (place_limit_order E raw sd qty p tif s) = None
    then orders (snd (place_limit_order E raw sd qty p tif s)) = orders s \<and>
         order_history (snd (place_limit_order E raw sd qty p tif s)) = order_history s
    else map order_type (order_history (snd (place_limit_order E raw sd qty p tif s))) =
           map order_type (order_history s) @ [LIMIT])"
proof (cases "create_order E (calls (events s))
    \<lparr>symbol = clean_symbol raw, side = sd, otype = LIMIT, quantity = qty,
     timeInForce = Some tif, price = Some p, stopPrice = None,
     stopLimitPrice = None, stopLimitTimeInForce = None\<rparr>")
  case (Inl e)
  then show ?thesis by (simp add: place_limit_order_def futures_create_order_def)
next
  case (Inr x)
  then show ?thesis
    by (simp add: place_limit_order_def futures_create_order_def record_order_def)
qed

lemma stop_limit_order_ledger_effect:
  "(if fst (place_stop_limit_order E raw sd qty p stop tif s) = None
    then orders (snd (place_stop_limit_order E raw sd qty p stop tif s)) = orders s \<and>
         order_history (snd (place_stop_limit_order E raw sd qty p stop tif s)) = order_history s
    else map order_type (order_history (snd (place_stop_limit_order E raw sd qty p stop tif s))) =
           map order_type (order_history s) @ [STOP_LIMIT])"
proof (cases "create_order E (calls (events s))
    \<lparr>symbol = clean_symbol raw, side = sd, otype = STOP_LIMIT, quantity = qty,
     timeInForce = Some tif, price = Some p, stopPrice = Some stop,
     stopLimitPrice = None, stopLimitTimeInForce = None\<rparr>")
  case (Inl e)
  then show ?thesis by (simp add: place_stop_limit_order_def futures_create_order_def)
next
  case (Inr x)
  then show ?thesis
    by (simp add: place_stop_limit_order_def futures_create_order_def record_order_def)
qed

lemma oco_order_ledger_effect:
  "(if fst (place_oco_order E raw sd qty p stop slp s) = None
    then orders (snd (place_oco_order E raw sd qty p stop slp s)) = orders s \<and>
         order_history (snd (place_oco_order E raw sd qty p stop slp s)) = order_history s
    else map order_type (order_history (snd (place_oco_order E raw sd qty p stop slp s))) =
           map order_type (order_history s) @ [OCO])"
proof (cases "create_order E (calls (events s))
    \<lparr>symbol = clean_symbol raw, side = sd, otype = LIMIT, quantity = qty,
     timeInForce = Some ''GTC'', price = Some p, stopPrice = Some stop,
     stopLimitPrice = Some (case slp of None \<Rightarrow> stop | Some v \<Rightarrow> v),
     stopLimitTimeInForce = Some ''GTC''\<rparr>")
  case (Inl e)
  then show ?thesis by (simp add: place_oco_order_def Let_def futures_create_order_def)
next
  case (Inr x)
  then show ?thesis
    by (simp add: place_oco_order_def Let_def futures_create_order_def record_order_def)
qed

text \<open>
  A single order that the exchange rejects leaves the ledger as it was (\<open>orders\<close> and
  \<open>order_history\<close> unchanged); one that it accepts appends exactly one history entry,
  tagged with the strategy.
\<close>

theorem single_order_ledger_effect:
  "(if fst (place_market_order E raw sd qty s) = None
    then orders (snd (place_market_order E raw sd qty s)) = orders s \<and>
         order_history (snd (place_market_order E raw sd qty s)) = order_history s
    else map order_type (order_history (snd (place_market_order E raw sd qty s))) =
           map order_type (order_history s) @ [MARKET]) \<and>
   (if fst (place_limit_order E raw sd qty p tif s) = None
    then orders (snd (place_limit_order E raw sd qty p tif s)) = orders s \<and>
         order_history (snd (place_limit_order E raw sd qty p tif s)) = order_history s
    else map order_type (order_history (snd (place_limit_order E raw sd qty p tif s))) =
           map order_type (order_history s) @ [LIMIT]) \<and>
   (if fst (place_stop_limit_order E raw sd qty p stop tif s) = None
    then orders (snd (place_stop_limit_order E raw sd qty p stop tif s)) = orders s \<and>
         order_history (snd (place_stop_limit_order E raw sd qty p stop tif s)) = order_history s
    else map order_type (order_history (snd (place_stop_limit_order E raw sd qty p stop tif s))) =
           map order_type (order_history s) @ [STOP_LIMIT]) \<and>
   (if fst (place_oco_order E raw sd qty p stop slp s) = None
    then orders (snd (place_oco_order E raw sd qty p stop slp s)) = orders s \<and>
         order_history (snd (place_oco_order E raw sd qty p stop slp s)) = order_history s
    else map order_type (order_history (snd (place_oco_order E raw sd qty p stop slp s))) =
           map order_type (order_history s) @ [OCO])"
  using market_order_ledger_effect[of E raw sd qty s]
    limit_order_ledger_effect[of E raw sd qty p tif s]
    stop_limit_order_ledger_effect[of E raw sd qty p stop tif s]
    oco_order_ledger_effect[of E raw sd qty p stop slp s]
  by (intro conjI)

text \<open>
  With a level or slice count of zero or less, a grid run and a TWAP run return the
  empty list without a call to the exchange and without a change of the state (for
  zero through \<open>ZeroDivisionError\<close>, below zero through the empty \<open>range\<close>).
\<close>

theorem no_levels_no_orders:
  assumes "grid_levels \<le> 0"
  shows "place_grid_order E raw sd qty b grid_levels pct s = ([], s) \<and>
         place_twap_order E raw sd qty grid_levels t s = ([], s)"
proof (cases "grid_levels = 0")
  case True
  then show ?thesis
    by (simp add: place_grid_order_def place_grid_order_try_def
        place_twap_order_def place_twap_order_try_def)
next
  case False
  then have "nat grid_levels = 0" using assms by simp
  then show ?thesis using False
    by (simp add: place_grid_order_def place_grid_order_try_def
        place_twap_order_def place_twap_order_try_def)
qed

theorem no_levels_no_orders_witness:
  "place_grid_order accepting ''BTC'' BUY 1 50000 0 2 new_bot = ([], new_bot) \<and>
   place_twap_order accepting ''BTC'' BUY 1 (- 3) 60 new_bot = ([], new_bot)"
proof -
  have h0: "(0::int) \<le> 0" by simp
  have h3: "(- 3::int) \<le> 0" by simp
  show ?thesis
    using no_levels_no_orders[OF h0, of accepting "''BTC''" BUY 1 50000 2 new_bot 60]
      no_levels_no_orders[OF h3, of accepting "''BTC''" BUY 1 50000 2 new_bot 60]
    by simp
qed

text \<open>
  A TWAP run of two or more slices with a negative interval: the first slice is
  submitted and recorded, then \<open>time.sleep\<close> raises \<open>ValueError\<close>; the run returns the
  empty list after this one submission.
\<close>

theorem twap_negative_interval:
  assumes "t < 0" and "2 \<le> n"
    and "req = twap_request (clean_symbol raw) sd (qty / of_int n)"
    and "create_order E (calls (events s)) req = Inr x"
  shows "fst (place_twap_order E raw sd qty n t s) = [] \<and>
    events (snd (place_twap_order E raw sd qty n t s)) = events s @ [CreateOrder req] \<and>
    map response (order_history (snd (place_twap_order E raw sd qty n t s))) =
      map response (order_history s) @ [x]"
proof -
  have "0 < nat n" using assms(2) by simp
  then have u: "[0 ..< nat n] = 0 # [Suc 0 ..< nat n]" by (rule upt_conv_Cons)
  have n0: "n \<noteq> 0" using assms(2) by simp
  have lt: "int 0 < n - 1" using assms(2) by simp
  have b: "twap_body E (clean_symbol raw) sd (qty / of_int n) n t 0 ([], s) =
     (Some ValueError, ([x],
        record_order E x TWAP None None (Some 1) (s\<lparr>events := events s @ [CreateOrder req]\<rparr>)))"
    using assms(1,3,4) lt
    by (simp add: twap_body_def futures_create_order_def sleep_def Let_def)
  show ?thesis
    using n0 by (simp add: place_twap_order_def place_twap_order_try_def u b record_order_def)
qed

theorem twap_negative_interval_witness:
  "fst (place_twap_order accepting ''BTC'' BUY 1 5 (- 1) new_bot) = [] \<and>
   events (snd (place_twap_order accepting ''BTC'' BUY 1 5 (- 1) new_bot)) =
     [CreateOrder (twap_request ''BTCUSDT'' BUY (1 / 5))] \<and>
   map response (order_history (snd (place_twap_order accepting ''BTC'' BUY 1 5 (- 1) new_bot))) =
     [accepted 0]"
proof -
  have h1: "(- 1::rat) < 0" by simp
  have h2: "(2::int) \<le> 5" by simp
  have h3: "twap_request ''BTCUSDT'' BUY (1 / 5) =
      twap_request (clean_symbol ''BTC'') BUY (1 / of_int 5)"
    by code_simp
  have h4: "create_order accepting (calls (events new_bot))
      (twap_request ''BTCUSDT'' BUY (1 / 5)) = Inr (accepted 0)"
    by (simp add: accepting_def new_bot_def)
  show ?thesis
    using twap_negative_interval[OF h1 h2 h3 h4]
    by (simp add: new_bot_def)
qed

end
